theory Spec2Isabelle
  imports Main "HOL-Library.Word"
begin

unbundle bit_operations_syntax

section \<open>The ring container (CircularBuffer.h, CircularBuffer.cpp)\<close>

text \<open>
  The class keeps its samples in \<^verbatim>\<open>unsigned char buffer[BUF_SIZE]\<close>, with the
  producer index \<^verbatim>\<open>i\<close> and the field \<^verbatim>\<open>capacity\<close>, both \<^verbatim>\<open>unsigned char\<close>.
  The member functions also use a field \<^verbatim>\<open>size\<close>, which the header does not declare;
  it is only ever assigned 0 and compared, and is modelled as a natural number
  (\<open>size_field\<close>, since \<open>size\<close> is a constant of HOL).
  The macro \<^verbatim>\<open>BUF_SIZE\<close> is defined nowhere in the repository and is a parameter.
\<close>

datatype error = OutOfBounds | NullPointer

record CircularBuffer =
  buffer :: "8 word list"
  i :: "8 word"
  capacity :: "8 word"
  size_field :: nat

text \<open>
  The constructor of CircularBuffer.cpp takes no argument and assigns \<^verbatim>\<open>buffer\<close>,
  \<^verbatim>\<open>i\<close> and \<^verbatim>\<open>size\<close>; it leaves \<^verbatim>\<open>capacity\<close> as it finds it. It is applied to
  the storage of the object, whose array has \<^verbatim>\<open>BUF_SIZE\<close> elements.
\<close>

definition CircularBuffer_ctor :: "CircularBuffer \<Rightarrow> CircularBuffer" where
  "CircularBuffer_ctor this =
     this\<lparr>buffer := replicate (length (buffer this)) 0, i := 0, size_field := 0\<rparr>"

text \<open>
  Both overloads of \<^verbatim>\<open>write\<close> have the same body (the name is a keyword of
  Isabelle, so the function is \<open>CircularBuffer_write\<close>). The sample of type \<^verbatim>\<open>T\<close> is
  converted to \<^verbatim>\<open>unsigned char\<close> by the assignment into the array. An index outside
  the array is undefined behaviour in C++: the model stops with \<open>OutOfBounds\<close>.
  \<^verbatim>\<open>++this.i\<close> wraps at 256, and the comparison with \<^verbatim>\<open>capacity\<close> is unsigned.
\<close>

definition CircularBuffer_write ::
  "'a::len word \<Rightarrow> CircularBuffer \<Rightarrow> error + CircularBuffer" where
  "CircularBuffer_write data this =
     (if unat (i this) < length (buffer this)
      then Inr (this\<lparr>buffer := (buffer this)[unat (i this) := ucast data],
                     i := (if capacity this \<le> i this + 1 then 0 else i this + 1)\<rparr>)
      else Inl OutOfBounds)"

definition clear :: "CircularBuffer \<Rightarrow> CircularBuffer" where
  "clear this = this\<lparr>size_field := 0\<rparr>"

definition full :: "nat \<Rightarrow> CircularBuffer \<Rightarrow> bool" where
  "full BUF_SIZE this = (BUF_SIZE \<le> size_field this)"

text \<open>A sequence of calls of \<^verbatim>\<open>write\<close>, stopping at the first error.\<close>

fun writes :: "'a::len word list \<Rightarrow> CircularBuffer \<Rightarrow> error + CircularBuffer" where
  "writes [] this = Inr this"
| "writes (x # xs) this =
     (case CircularBuffer_write x this of Inl e \<Rightarrow> Inl e | Inr this' \<Rightarrow> writes xs this')"

text \<open>
  Memory safety of a ring whose array has \<^verbatim>\<open>BUF_SIZE\<close> elements: the index and the
  capacity field stay within the array.
\<close>

definition ring_inv :: "nat \<Rightarrow> CircularBuffer \<Rightarrow> bool" where
  "ring_inv BUF_SIZE this =
     (length (buffer this) = BUF_SIZE \<and> unat (i this) < BUF_SIZE \<and>
      unat (capacity this) \<le> BUF_SIZE)"

section \<open>Compile-time configuration (visualizer.cpp, lines 44 to 87)\<close>

text \<open>
  The preprocessor sees the macros defined so far as a finite map. In the expression of
  an \<^verbatim>\<open>#if\<close>, an identifier that is not a defined macro has the value 0.
\<close>

type_synonym macros = "string \<rightharpoonup> int"

definition pp_value :: "macros \<Rightarrow> string \<Rightarrow> int" where
  "pp_value m name = (case m name of None \<Rightarrow> 0 | Some v \<Rightarrow> v)"

text \<open>Line 44, the only macro defined before the conditional of lines 61 to 75.\<close>

definition visualizer_macros :: macros where
  "visualizer_macros = [''ADC_PRESCALER'' \<mapsto> 16]"

datatype build_error = Prescalar_error | Elif_with_no_expression

text \<open>
  Lines 61 to 75. The conditional tests the identifier \<^verbatim>\<open>ADC_PRESCALAR\<close>; its last
  branch is the \<^verbatim>\<open>#error\<close> directive.
\<close>

definition ADC_BITS :: "macros \<Rightarrow> build_error + nat" where
  "ADC_BITS m =
     (if pp_value m ''ADC_PRESCALAR'' = 128 then Inr 9
      else if pp_value m ''ADC_PRESCALAR'' = 64 then Inr 9
      else if pp_value m ''ADC_PRESCALAR'' = 32 then Inr 9
      else if pp_value m ''ADC_PRESCALAR'' = 16 then Inr 8
      else if pp_value m ''ADC_PRESCALAR'' = 8 then Inr 7
      else if pp_value m ''ADC_PRESCALAR'' = 4 then Inr 5
      else Inl Prescalar_error)"

text \<open>
  Lines 81 to 85. The second branch is written \<^verbatim>\<open>#elif\<close> with no expression; the
  preprocessor reports it when it has to evaluate it, that is when the first group was
  not taken.
\<close>

datatype ctype = uint8_t | uint16_t

definition adc_data_t :: "nat \<Rightarrow> build_error + ctype" where
  "adc_data_t bits = (if 8 < bits then Inr uint16_t else Inl Elif_with_no_expression)"

definition ADC_PIN :: "8 word" where
  "ADC_PIN = 0"

section \<open>The frame switchboard and the capture interrupt (visualizer.cpp)\<close>

text \<open>
  The hardware is seen through the register operations the program issues, in program
  order. Registers and bits keep the names of the device header.
\<close>

datatype reg = ADCSRA | ADCSRB | ADMUX | DIDR0

datatype reg_bit =
  ADEN | ADSC | ADIE | ADTS2 | ADTS1 | ADTS0 | ADPS2 | ADPS1 | ADPS0
  | ADC5D | ADC4D | ADC3D | ADC2D | ADC1D | ADC0D | ADLAR

datatype aref = EXTERNAL

datatype hw_op =
  Sbi reg reg_bit | Cbi reg reg_bit | AnalogReference aref | Or_assign reg "8 word" | Sei

text \<open>
  The globals of visualizer.cpp. \<^verbatim>\<open>capt_buf\<close> and \<^verbatim>\<open>proc_buf\<close> are pointers to
  \<^verbatim>\<open>ping\<close> or \<^verbatim>\<open>pong\<close>, null before \<^verbatim>\<open>setup\<close> runs. The flag \<^verbatim>\<open>processing\<close> is
  used by the interrupt handler, \<^verbatim>\<open>setup\<close> and \<^verbatim>\<open>loop\<close>.
\<close>

datatype slot = Ping | Pong

record sys =
  buf_full :: bool
  ping :: CircularBuffer
  pong :: CircularBuffer
  capt_buf :: "slot option"
  proc_buf :: "slot option"
  processing :: bool
  io :: "hw_op list"

definition deref :: "slot \<Rightarrow> sys \<Rightarrow> CircularBuffer" where
  "deref p s = (case p of Ping \<Rightarrow> ping s | Pong \<Rightarrow> pong s)"

definition store :: "slot \<Rightarrow> CircularBuffer \<Rightarrow> sys \<Rightarrow> sys" where
  "store p this s = (case p of Ping \<Rightarrow> s\<lparr>ping := this\<rparr> | Pong \<Rightarrow> s\<lparr>pong := this\<rparr>)"

text \<open>
  The conversion result is the 16-bit register pair \<^verbatim>\<open>ADC\<close>; \<^verbatim>\<open>ADCH\<close> is its high
  byte.
\<close>

definition ADCH :: "16 word \<Rightarrow> 8 word" where
  "ADCH adc = ucast (drop_bit 8 adc)"

text \<open>
  \<^verbatim>\<open>ISR(ADC_vect)\<close>, lines 109 to 140, for the conversion result \<open>adc\<close>. The handler
  runs with interrupts disabled, so it is one atomic step. \<^verbatim>\<open>ADC_BITS\<close> is a
  parameter.
\<close>

definition ISR_ADC_vect :: "nat \<Rightarrow> nat \<Rightarrow> 16 word \<Rightarrow> sys \<Rightarrow> error + sys" where
  "ISR_ADC_vect BUF_SIZE bits adc s =
     (case capt_buf s of
        None \<Rightarrow> Inl NullPointer
      | Some c \<Rightarrow>
          (case (if 8 < bits then CircularBuffer_write adc (deref c s)
                 else CircularBuffer_write (ADCH adc) (deref c s)) of
             Inl e \<Rightarrow> Inl e
           | Inr this \<Rightarrow>
               (let s1 = store c this s in
                if \<not> processing s1 \<and> full BUF_SIZE (deref c s1)
                then Inr (s1\<lparr>processing := True, proc_buf := capt_buf s1,
                              capt_buf := proc_buf s1\<rparr>)
                else Inr s1)))"

text \<open>One interrupt per conversion result, stopping at the first error.\<close>

fun conversions :: "nat \<Rightarrow> nat \<Rightarrow> 16 word list \<Rightarrow> sys \<Rightarrow> error + sys" where
  "conversions BUF_SIZE bits [] s = Inr s"
| "conversions BUF_SIZE bits (adc # adcs) s =
     (case ISR_ADC_vect BUF_SIZE bits adc s of
        Inl e \<Rightarrow> Inl e
      | Inr s' \<Rightarrow> conversions BUF_SIZE bits adcs s')"

text \<open>What a conversion result leaves in the array of \<^verbatim>\<open>unsigned char\<close>.\<close>

definition stored :: "nat \<Rightarrow> 16 word \<Rightarrow> 8 word" where
  "stored bits adc = (if 8 < bits then ucast adc else ADCH adc)"

section \<open>Initialisation (visualizer.cpp, lines 148 to 238)\<close>

definition emit :: "hw_op \<Rightarrow> sys \<Rightarrow> sys" where
  "emit op s = s\<lparr>io := io s @ [op]\<rparr>"

definition sbi :: "reg \<Rightarrow> reg_bit \<Rightarrow> sys \<Rightarrow> sys" where
  "sbi r b = emit (Sbi r b)"

definition cbi :: "reg \<Rightarrow> reg_bit \<Rightarrow> sys \<Rightarrow> sys" where
  "cbi r b = emit (Cbi r b)"

definition analogReference :: "aref \<Rightarrow> sys \<Rightarrow> sys" where
  "analogReference mode = emit (AnalogReference mode)"

definition sei :: "sys \<Rightarrow> sys" where
  "sei = emit Sei"

text \<open>Statements in sequence, the first of the list first.\<close>

definition statements :: "(sys \<Rightarrow> sys) list \<Rightarrow> sys \<Rightarrow> sys" where
  "statements stmts s = fold (\<lambda>stmt t. stmt t) stmts s"

definition init_adc :: "sys \<Rightarrow> sys" where
  "init_adc =
     statements
       [sbi ADCSRA ADEN,
        sbi ADCSRA ADSC,
        sbi ADCSRA ADIE,
        cbi ADCSRB ADTS2,
        cbi ADCSRB ADTS1,
        cbi ADCSRB ADTS0,
        sbi ADCSRA ADPS2,
        cbi ADCSRA ADPS1,
        sbi ADCSRA ADPS0]"

definition init_analog :: "nat \<Rightarrow> sys \<Rightarrow> sys" where
  "init_analog bits =
     statements
       [sbi DIDR0 ADC5D,
        sbi DIDR0 ADC4D,
        sbi DIDR0 ADC3D,
        sbi DIDR0 ADC2D,
        sbi DIDR0 ADC1D,
        sbi DIDR0 ADC0D,
        analogReference EXTERNAL,
        (if bits \<le> 8 then sbi ADMUX ADLAR else cbi ADMUX ADLAR),
        emit (Or_assign ADMUX (ADC_PIN AND 7))]"

text \<open>
  The function \<^verbatim>\<open>setup()\<close> of lines 227 to 238 (its name is a keyword of Isabelle, so
  the function is \<open>visualizer_setup\<close>).
\<close>

definition visualizer_setup :: "nat \<Rightarrow> sys \<Rightarrow> sys" where
  "visualizer_setup bits =
     statements
       [init_analog bits,
        init_adc,
        (\<lambda>s. s\<lparr>capt_buf := Some Ping\<rparr>),
        (\<lambda>s. s\<lparr>proc_buf := Some Pong\<rparr>),
        (\<lambda>s. s\<lparr>processing := False\<rparr>),
        sei]"

section \<open>The foreground loop (visualizer.cpp, lines 240 to 253)\<close>

text \<open>
  \<^verbatim>\<open>while(!processing);\<close> has an empty body: taken alone, it returns only from a state
  where the flag is already set. The five pipeline stages are defined outside the
  repository and are parameters.
\<close>

partial_function (option) wait_processing :: "sys \<Rightarrow> sys option" where
  "wait_processing s = (if \<not> processing s then wait_processing s else Some s)"

definition loop ::
  "(sys \<Rightarrow> sys) \<Rightarrow> (sys \<Rightarrow> sys) \<Rightarrow> (sys \<Rightarrow> sys) \<Rightarrow> (sys \<Rightarrow> sys) \<Rightarrow> (sys \<Rightarrow> sys) \<Rightarrow>
     sys \<Rightarrow> sys option" where
  "loop preprocess fft_input fft_execute fft_output postprocess s =
     (case wait_processing s of
        None \<Rightarrow> None
      | Some s' \<Rightarrow>
          Some (statements [preprocess, fft_input, fft_execute, fft_output, postprocess] s'))"

section \<open>Three states of the switchboard\<close>

text \<open>
  \<open>filling_state\<close>: the foreground is idle and the capture ring \<^verbatim>\<open>ping\<close> counts as
  full. \<open>busy_state\<close>: the frame in \<^verbatim>\<open>ping\<close> has been handed to the foreground and
  the handler captures into \<^verbatim>\<open>pong\<close>. \<open>overrun_state\<close>: the foreground still holds
  the frame in \<^verbatim>\<open>ping\<close> and the capture ring \<^verbatim>\<open>pong\<close> has filled in the meantime.
\<close>

definition filling_state :: sys where
  "filling_state =
     \<lparr>buf_full = False,
      ping = \<lparr>buffer = [10, 20, 30, 0], i = 3, capacity = 4, size_field = 4\<rparr>,
      pong = \<lparr>buffer = [0, 0, 0, 0], i = 0, capacity = 4, size_field = 0\<rparr>,
      capt_buf = Some Ping, proc_buf = Some Pong, processing = False, io = []\<rparr>"

definition busy_state :: sys where
  "busy_state =
     \<lparr>buf_full = False,
      ping = \<lparr>buffer = [10, 20, 30, 40], i = 0, capacity = 4, size_field = 4\<rparr>,
      pong = \<lparr>buffer = [0, 0, 0, 0], i = 0, capacity = 4, size_field = 0\<rparr>,
      capt_buf = Some Pong, proc_buf = Some Ping, processing = True, io = []\<rparr>"


section \<open>Properties of the ring container\<close>

lemma write_size_field:
  "CircularBuffer_write x this = Inr this' \<Longrightarrow> size_field this' = size_field this"
  by (auto simp: CircularBuffer_write_def split: if_splits)

lemma write_capacity:
  "CircularBuffer_write x this = Inr this' \<Longrightarrow> capacity this' = capacity this"
  by (auto simp: CircularBuffer_write_def split: if_splits)

lemma writes_size_field:
  "writes xs this = Inr this' \<Longrightarrow> size_field this' = size_field this"
proof (induction xs arbitrary: this)
  case Nil
  then show ?case by simp
next
  case (Cons x xs)
  from Cons.prems obtain r where w: "CircularBuffer_write x this = Inr r"
    and rest: "writes xs r = Inr this'"
    by (auto split: sum.splits)
  from Cons.IH [OF rest] write_size_field [OF w] show ?case by simp
qed

text \<open>The index advances by one and returns to 0 on reaching the capacity.\<close>

lemma write_index:
  "i this < capacity this \<Longrightarrow> CircularBuffer_write x this = Inr this' \<Longrightarrow>
     i this' = (if i this + 1 = capacity this then 0 else i this + 1)"
  by (auto simp: CircularBuffer_write_def split: if_splits)
     (meson Orderings.order_eq_iff inc_le)

lemma write_ring_inv:
  assumes "ring_inv BUF_SIZE this"
  shows "\<exists>this'. CircularBuffer_write x this = Inr this' \<and> ring_inv BUF_SIZE this'"
proof -
  from assms have len: "length (buffer this) = BUF_SIZE"
    and idx: "unat (i this) < BUF_SIZE" and cap: "unat (capacity this) \<le> BUF_SIZE"
    by (simp_all add: ring_inv_def)
  show ?thesis
  proof (cases "capacity this \<le> i this + 1")
    case True
    with len idx cap show ?thesis
      by (simp add: CircularBuffer_write_def ring_inv_def)
  next
    case False
    then have "unat (i this + 1) < unat (capacity this)"
      by (simp add: word_le_nat_alt)
    with len idx cap False show ?thesis
      by (simp add: CircularBuffer_write_def ring_inv_def)
  qed
qed

lemma writes_ring_inv:
  "ring_inv BUF_SIZE this \<Longrightarrow>
     \<exists>this'. writes xs this = Inr this' \<and> ring_inv BUF_SIZE this' \<and>
       size_field this' = size_field this \<and> capacity this' = capacity this"
proof (induction xs arbitrary: this)
  case Nil
  then show ?case by simp
next
  case (Cons x xs)
  from write_ring_inv [OF Cons.prems, of x] obtain r
    where w: "CircularBuffer_write x this = Inr r" and inv: "ring_inv BUF_SIZE r"
    by blast
  from Cons.IH [OF inv] obtain r'
    where "writes xs r = Inr r'" "ring_inv BUF_SIZE r'"
      "size_field r' = size_field r" "capacity r' = capacity r"
    by blast
  with w write_size_field [OF w] write_capacity [OF w] show ?case
    by simp
qed

lemma ctor_ring_inv:
  "0 < length (buffer this) \<Longrightarrow> unat (capacity this) \<le> length (buffer this) \<Longrightarrow>
     ring_inv (length (buffer this)) (CircularBuffer_ctor this)"
  by (simp add: ring_inv_def CircularBuffer_ctor_def)




text \<open>
  C1. The claim: \<^verbatim>\<open>write(x)\<close> stores \<open>x\<close> at position \<open>i\<close>, advances \<open>i\<close> with
  wrap-around at the capacity, and increments \<open>size\<close> up to the capacity. The code
  stores the value and advances the index, and leaves \<open>size\<close> as it was: one write into
  a freshly constructed ring of capacity 4 leaves \<open>size\<close> at 0.
\<close>

theorem C1_write_leaves_size:
  "CircularBuffer_write (10 :: 8 word)
     (CircularBuffer_ctor \<lparr>buffer = [a, b, c, d], i = j, capacity = 4, size_field = n\<rparr>)
   = Inr \<lparr>buffer = [10, 0, 0, 0], i = 1, capacity = 4, size_field = 0\<rparr>"
  by (simp add: CircularBuffer_write_def CircularBuffer_ctor_def word_le_nat_alt)

text \<open>
  C2. The claim: after \<open>k\<close> writes into a fresh ring of capacity \<open>N\<close>, \<open>size\<close> is
  \<open>min k N\<close> and \<^verbatim>\<open>full()\<close> holds exactly when \<open>N \<le> k\<close>. In the code, four writes into
  a fresh ring of capacity 4, with \<^verbatim>\<open>BUF_SIZE\<close> 4, leave \<open>size\<close> at 0 and \<^verbatim>\<open>full()\<close>
  false.
\<close>

theorem C2_four_writes_not_full:
  "\<exists>this'. writes [10, 20, 30, 40 :: 8 word]
       (CircularBuffer_ctor \<lparr>buffer = [a, b, c, d], i = j, capacity = 4, size_field = n\<rparr>)
     = Inr this' \<and>
     this' = \<lparr>buffer = [10, 20, 30, 40], i = 0, capacity = 4, size_field = 0\<rparr> \<and>
     \<not> full 4 this'"
  by (simp add: CircularBuffer_write_def CircularBuffer_ctor_def full_def word_le_nat_alt)

text \<open>
  C6. \<^verbatim>\<open>clear()\<close> sets \<open>size\<close> to 0 and leaves the index, the stored bytes and the
  capacity as they were. In a fresh ring of capacity 4, six writes leave the index at 2;
  after \<^verbatim>\<open>clear()\<close>, two more writes go to the slots 2 and 3, and the slots 0 and 1
  keep the fifth and sixth value.
\<close>

theorem C6_clear_preserves_wrap:
  "size_field (clear this) = 0 \<and> i (clear this) = i this \<and>
   buffer (clear this) = buffer this \<and> capacity (clear this) = capacity this \<and>
   (\<exists>r. writes [v1, v2, v3, v4, v5, v6 :: 8 word]
          (CircularBuffer_ctor \<lparr>buffer = [a, b, c, d], i = j, capacity = 4, size_field = n\<rparr>)
        = Inr r \<and>
        buffer r = [v5, v6, v3, v4] \<and> i r = 2 \<and>
        writes [w1, w2 :: 8 word] (clear r)
        = Inr \<lparr>buffer = [v5, v6, w1, w2], i = 0, capacity = 4, size_field = 0\<rparr>)"
  by (simp add: CircularBuffer_write_def CircularBuffer_ctor_def clear_def word_le_nat_alt)

text \<open>
  C7. In the code, no write changes \<open>size\<close>: after the constructor and any sequence of
  writes, \<open>size\<close> is 0 and \<^verbatim>\<open>full()\<close> is false, \<^verbatim>\<open>BUF_SIZE\<close> being the bound of an
  array and so positive. Every write of the sequence returns when the array has
  \<^verbatim>\<open>BUF_SIZE\<close> elements and the capacity field does not exceed it.
\<close>

theorem C7_size_never_raised:
  assumes "0 < BUF_SIZE"
  shows "(writes xs (CircularBuffer_ctor this) = Inr this' \<longrightarrow>
            size_field this' = 0 \<and> \<not> full BUF_SIZE this') \<and>
         (length (buffer this) = BUF_SIZE \<and> unat (capacity this) \<le> BUF_SIZE \<longrightarrow>
            (\<exists>r. writes xs (CircularBuffer_ctor this) = Inr r))"
proof (intro conjI impI)
  assume "writes xs (CircularBuffer_ctor this) = Inr this'"
  then have "size_field this' = size_field (CircularBuffer_ctor this)"
    by (rule writes_size_field)
  then show "size_field this' = 0"
    by (simp add: CircularBuffer_ctor_def)
  with assms show "\<not> full BUF_SIZE this'"
    by (simp add: full_def)
next
  assume "length (buffer this) = BUF_SIZE \<and> unat (capacity this) \<le> BUF_SIZE"
  with assms have "ring_inv BUF_SIZE (CircularBuffer_ctor this)"
    using ctor_ring_inv [of this] by simp
  from writes_ring_inv [OF this, of xs]
  show "\<exists>r. writes xs (CircularBuffer_ctor this) = Inr r"
    by blast
qed

theorem C7_size_never_raised_witness:
  "(0::nat) < 4 \<and>
   writes [1, 2, 3, 4, 5 :: 8 word]
     (CircularBuffer_ctor \<lparr>buffer = [7, 7, 7, 7], i = 3, capacity = 4, size_field = 9\<rparr>)
     = Inr \<lparr>buffer = [5, 2, 3, 4], i = 1, capacity = 4, size_field = 0\<rparr> \<and>
   size_field \<lparr>buffer = [5, 2, 3, 4], i = 1 :: 8 word, capacity = 4 :: 8 word,
      size_field = 0 :: nat\<rparr> = 0 \<and>
   \<not> full 4 \<lparr>buffer = [5, 2, 3, 4], i = 1, capacity = 4, size_field = 0\<rparr> \<and>
   length (buffer \<lparr>buffer = [7, 7, 7, 7], i = 3 :: 8 word, capacity = 4 :: 8 word,
      size_field = 9 :: nat\<rparr>) = 4 \<and>
   unat (capacity \<lparr>buffer = [7, 7, 7, 7], i = 3, capacity = 4, size_field = 9\<rparr>) \<le> 4 \<and>
   (\<exists>r. writes [1, 2, 3, 4, 5 :: 8 word]
      (CircularBuffer_ctor \<lparr>buffer = [7, 7, 7, 7], i = 3, capacity = 4, size_field = 9\<rparr>)
      = Inr r)"
proof -
  have run: "writes [1, 2, 3, 4, 5 :: 8 word]
      (CircularBuffer_ctor \<lparr>buffer = [7, 7, 7, 7], i = 3, capacity = 4, size_field = 9\<rparr>)
      = Inr \<lparr>buffer = [5, 2, 3, 4], i = 1, capacity = 4, size_field = 0\<rparr>"
    by (simp add: CircularBuffer_write_def CircularBuffer_ctor_def word_le_nat_alt)
  have pos: "(0::nat) < 4" by simp
  from C7_size_never_raised [OF pos, of "[1, 2, 3, 4, 5 :: 8 word]"
      "\<lparr>buffer = [7, 7, 7, 7], i = 3, capacity = 4, size_field = 9\<rparr>"
      "\<lparr>buffer = [5, 2, 3, 4], i = 1, capacity = 4, size_field = 0\<rparr>"] run pos
  show ?thesis by simp
qed

text \<open>
  C10. A write whose index is inside the array changes the slot at the index and the
  index only: the capacity, \<open>size\<close>, the length of the array and every other slot are
  as before.
\<close>

theorem C10_write_frame:
  assumes "unat (i this) < length (buffer this)"
  shows "\<exists>this'. CircularBuffer_write x this = Inr this' \<and>
           capacity this' = capacity this \<and>
           size_field this' = size_field this \<and>
           length (buffer this') = length (buffer this) \<and>
           buffer this' ! unat (i this) = ucast x \<and>
           (\<forall>j. j \<noteq> unat (i this) \<longrightarrow> buffer this' ! j = buffer this ! j)"
  using assms by (simp add: CircularBuffer_write_def)

theorem C10_write_frame_witness:
  "unat (i \<lparr>buffer = [1, 2, 3, 4], i = 1, capacity = 4, size_field = 0\<rparr>)
     < length (buffer \<lparr>buffer = [1, 2, 3, 4], i = 1, capacity = 4, size_field = 0\<rparr>) \<and>
   (\<exists>this'. CircularBuffer_write (9 :: 8 word)
        \<lparr>buffer = [1, 2, 3, 4], i = 1, capacity = 4, size_field = 0\<rparr> = Inr this' \<and>
      capacity this' = 4 \<and> size_field this' = 0 \<and> length (buffer this') = 4 \<and>
      buffer this' ! 1 = 9 \<and>
      (\<forall>j. j \<noteq> 1 \<longrightarrow> buffer this' ! j = [1, 2, 3, 4] ! j))"
  using C10_write_frame
    [of "\<lparr>buffer = [1, 2, 3, 4], i = 1, capacity = 4, size_field = 0\<rparr>" "9 :: 8 word"]
  by auto

section \<open>Properties of the compile-time configuration\<close>

text \<open>
  As a function of the value of the identifier it tests, the conditional gives the
  width of the table and the error outside the six values.
\<close>

lemma ADC_BITS_map:
  "m ''ADC_PRESCALAR'' = Some p \<Longrightarrow>
     ADC_BITS m =
       (if p = 4 then Inr 5 else if p = 8 then Inr 7 else if p = 16 then Inr 8
        else if p = 32 \<or> p = 64 \<or> p = 128 then Inr 9 else Inl Prescalar_error)"
  by (simp add: ADC_BITS_def pp_value_def)

lemma ADC_BITS_undefined:
  "m ''ADC_PRESCALAR'' = None \<Longrightarrow> ADC_BITS m = Inl Prescalar_error"
  by (simp add: ADC_BITS_def pp_value_def)

text \<open>
  C8. The claim: the sample width is given by the prescaler through the map
  4 to 5, 8 to 7, 16 to 8, 32, 64 and 128 to 9, and a prescaler outside these values is
  a build error. The file defines \<^verbatim>\<open>ADC_PRESCALER\<close> as 16 and the conditional tests
  \<^verbatim>\<open>ADC_PRESCALAR\<close>, which is not defined and counts as 0: the build stops at the
  \<^verbatim>\<open>#error\<close> directive, for 16 and for any other value given to \<^verbatim>\<open>ADC_PRESCALER\<close>.
\<close>

theorem C8_prescaler_16_is_build_error:
  "ADC_BITS visualizer_macros = Inl Prescalar_error \<and>
   ADC_BITS [''ADC_PRESCALER'' \<mapsto> p] = Inl Prescalar_error"
  by (simp add: ADC_BITS_def pp_value_def visualizer_macros_def)

section \<open>Properties of the switchboard\<close>

lemma deref_store_same: "deref c (store c this s) = this"
  by (cases c) (simp_all add: deref_def store_def)


lemma store_globals:
  "capt_buf (store c this s) = capt_buf s \<and> proc_buf (store c this s) = proc_buf s \<and>
   processing (store c this s) = processing s \<and> io (store c this s) = io s"
  by (cases c) (simp_all add: store_def)

lemma deref_swap:
  "deref p (s\<lparr>processing := b, proc_buf := x, capt_buf := y\<rparr>) = deref p s"
  by (cases p) (simp_all add: deref_def)

text \<open>Both branches of the read write the same byte into the array.\<close>

lemma write_stored:
  "(if 8 < bits then CircularBuffer_write adc this else CircularBuffer_write (ADCH adc) this)
   = CircularBuffer_write (stored bits adc) this"
  by (simp add: CircularBuffer_write_def stored_def)


lemma ISR_cases:
  assumes "ISR_ADC_vect BUF_SIZE bits adc s = Inr s'"
  obtains c this where "capt_buf s = Some c"
    and "CircularBuffer_write (stored bits adc) (deref c s) = Inr this"
    and "s' = (if \<not> processing s \<and> full BUF_SIZE this
               then (store c this s)\<lparr>processing := True, proc_buf := capt_buf s,
                      capt_buf := proc_buf s\<rparr>
               else store c this s)"
  using assms
  by (auto simp: ISR_ADC_vect_def write_stored store_globals deref_store_same Let_def
      split: option.splits sum.splits if_splits)

lemma ISR_step:
  assumes "ISR_ADC_vect BUF_SIZE bits adc s = Inr s'"
  shows "((\<not> processing s \<and> processing s') =
            (\<not> processing s \<and> (\<exists>c. capt_buf s = Some c \<and> full BUF_SIZE (deref c s')))) \<and>
         (\<not> processing s \<and> processing s' \<longrightarrow>
            capt_buf s' = proc_buf s \<and> proc_buf s' = capt_buf s) \<and>
         (capt_buf s \<noteq> proc_buf s \<longrightarrow> capt_buf s' \<noteq> proc_buf s')"
proof -
  from assms obtain c this where c: "capt_buf s = Some c"
    and s': "s' = (if \<not> processing s \<and> full BUF_SIZE this
               then (store c this s)\<lparr>processing := True, proc_buf := capt_buf s,
                      capt_buf := proc_buf s\<rparr>
               else store c this s)"
    by (rule ISR_cases)
  show ?thesis
    using c s' by (auto simp: store_globals deref_store_same deref_swap)
qed

lemma conversions_neq:
  "capt_buf s \<noteq> proc_buf s \<Longrightarrow> conversions BUF_SIZE bits adcs s = Inr s' \<Longrightarrow>
     capt_buf s' \<noteq> proc_buf s'"
proof (induction adcs arbitrary: s)
  case Nil
  then show ?case by simp
next
  case (Cons adc adcs)
  from Cons.prems(2) obtain t where t: "ISR_ADC_vect BUF_SIZE bits adc s = Inr t"
    and rest: "conversions BUF_SIZE bits adcs t = Inr s'"
    by (auto split: sum.splits)
  from ISR_step [OF t] Cons.prems(1) have "capt_buf t \<noteq> proc_buf t" by blast
  from Cons.IH [OF this rest] show ?case .
qed

lemma setup_globals:
  "capt_buf (visualizer_setup bits s) = Some Ping \<and>
   proc_buf (visualizer_setup bits s) = Some Pong \<and>
   \<not> processing (visualizer_setup bits s) \<and>
   ping (visualizer_setup bits s) = ping s \<and> pong (visualizer_setup bits s) = pong s"
  by (simp add: visualizer_setup_def init_analog_def init_adc_def statements_def sbi_def
      cbi_def analogReference_def sei_def emit_def)

text \<open>
  C3. For every run of the handler that returns: the flag goes from false to true exactly
  when it was false and the capture ring is full after the write; in that case the two
  pointers are exchanged in the same step; and pointers that differ before the step
  differ after it. After the initialisation and any number of conversions, the two
  pointers differ.
\<close>

theorem C3_promotion_swaps:
  "(ISR_ADC_vect BUF_SIZE bits adc s = Inr s' \<longrightarrow>
      ((\<not> processing s \<and> processing s') =
         (\<not> processing s \<and> (\<exists>c. capt_buf s = Some c \<and> full BUF_SIZE (deref c s')))) \<and>
      (\<not> processing s \<and> processing s' \<longrightarrow>
         capt_buf s' = proc_buf s \<and> proc_buf s' = capt_buf s) \<and>
      (capt_buf s \<noteq> proc_buf s \<longrightarrow> capt_buf s' \<noteq> proc_buf s')) \<and>
   (conversions BUF_SIZE bits adcs (visualizer_setup bits s0) = Inr t \<longrightarrow>
      capt_buf t \<noteq> proc_buf t)"
proof (intro conjI impI)
  assume "conversions BUF_SIZE bits adcs (visualizer_setup bits s0) = Inr t"
  moreover have "capt_buf (visualizer_setup bits s0) \<noteq> proc_buf (visualizer_setup bits s0)"
    by (simp add: setup_globals)
  ultimately show "capt_buf t \<noteq> proc_buf t"
    by (rule conversions_neq [rotated])
qed (use ISR_step in blast)+

theorem C3_promotion_swaps_witness:
  "(\<exists>s'. ISR_ADC_vect 4 8 0x2800 filling_state = Inr s' \<and>
        \<not> processing filling_state \<and> processing s' \<and>
        full 4 (deref Ping s') \<and>
        capt_buf s' = Some Pong \<and> proc_buf s' = Some Ping) \<and>
   (\<exists>t. conversions 4 8 [0x0100, 0x0200] (visualizer_setup 8 filling_state) = Inr t \<and>
        capt_buf t \<noteq> proc_buf t)"
proof -
  obtain s' where 1: "ISR_ADC_vect 4 8 0x2800 filling_state = Inr s'"
    by (simp add: ISR_ADC_vect_def filling_state_def CircularBuffer_write_def deref_def
        store_def full_def)
  obtain t
    where 2: "conversions 4 8 [0x0100, 0x0200] (visualizer_setup 8 filling_state) = Inr t"
    by (simp add: ISR_ADC_vect_def filling_state_def CircularBuffer_write_def deref_def
        store_def full_def visualizer_setup_def init_analog_def init_adc_def statements_def
        sbi_def cbi_def analogReference_def sei_def emit_def)
  have 3: "\<not> processing filling_state" "capt_buf filling_state = Some Ping"
    "proc_buf filling_state = Some Pong"
    by (simp_all add: filling_state_def)
  have 4: "processing s'"
    using 1
    by (auto simp add: ISR_ADC_vect_def filling_state_def CircularBuffer_write_def deref_def
        store_def full_def)
  show ?thesis
    using C3_promotion_swaps
      [of 4 8 "0x2800" filling_state s' "[0x0100, 0x0200]" filling_state t] 1 2 3 4
    by auto
qed





section \<open>Properties of the initialisation\<close>

text \<open>
  C9. The claim: every setting of the converter is made before global interrupts are
  enabled, and the first conversion is triggered after that, as the last step. The code
  issues nineteen register operations. Enabling global interrupts is the last one
  (position 18, counted from 0), after every setting; the first conversion is started
  at position 10, before the completion interrupt, the trigger source and the prescaler
  are set, and before global interrupts are enabled.
\<close>

theorem C9_first_conversion_before_sei:
  "io (visualizer_setup bits (s\<lparr>io := []\<rparr>)) =
     [Sbi DIDR0 ADC5D, Sbi DIDR0 ADC4D, Sbi DIDR0 ADC3D, Sbi DIDR0 ADC2D, Sbi DIDR0 ADC1D,
      Sbi DIDR0 ADC0D, AnalogReference EXTERNAL,
      (if bits \<le> 8 then Sbi ADMUX ADLAR else Cbi ADMUX ADLAR),
      Or_assign ADMUX 0,
      Sbi ADCSRA ADEN, Sbi ADCSRA ADSC, Sbi ADCSRA ADIE,
      Cbi ADCSRB ADTS2, Cbi ADCSRB ADTS1, Cbi ADCSRB ADTS0,
      Sbi ADCSRA ADPS2, Cbi ADCSRA ADPS1, Sbi ADCSRA ADPS0,
      Sei] \<and>
   io (visualizer_setup bits (s\<lparr>io := []\<rparr>)) ! 10 = Sbi ADCSRA ADSC \<and>
   io (visualizer_setup bits (s\<lparr>io := []\<rparr>)) ! 18 = Sei"
  by (simp add: visualizer_setup_def init_analog_def init_adc_def statements_def sbi_def
      cbi_def analogReference_def sei_def emit_def ADC_PIN_def)

section \<open>Properties of the foreground loop\<close>

lemma wait_processing_set: "processing s \<Longrightarrow> wait_processing s = Some s"
  by (subst wait_processing.simps) simp

lemma wait_processing_Some: "wait_processing s = Some s' \<Longrightarrow> processing s"
  by (rule wait_processing.raw_induct [where P = "\<lambda>s s'. processing s"])
     (auto split: if_splits)

lemma wait_processing_unset: "\<not> processing s \<Longrightarrow> wait_processing s = None"
  using wait_processing_Some [of s] by (cases "wait_processing s") auto

text \<open>
  An iteration that gets past the wait ends with the last pipeline stage: the loop
  itself changes nothing after it.
\<close>

lemma loop_result:
  "processing s \<Longrightarrow>
     loop preprocess fft_input fft_execute fft_output postprocess s =
       Some (postprocess (fft_output (fft_execute (fft_input (preprocess s)))))"
  by (simp add: loop_def wait_processing_set statements_def)

text \<open>
  C4. The claim: every iteration of the loop ends by calling \<^verbatim>\<open>proc->clear()\<close> and
  setting the flag to false. In the code, the body of the loop ends with
  \<^verbatim>\<open>postprocess()\<close>: with stages that leave the globals alone, an iteration started
  in \<open>busy_state\<close> ends in \<open>busy_state\<close>, with the flag set and \<open>size\<close> of the
  foreground's ring as it was.
\<close>

theorem C4_loop_leaves_flag_set:
  "loop (\<lambda>s. s) (\<lambda>s. s) (\<lambda>s. s) (\<lambda>s. s) (\<lambda>s. s) busy_state = Some busy_state \<and>
   processing busy_state \<and> proc_buf busy_state = Some Ping \<and>
   size_field (deref Ping busy_state) = 4"
  by (simp add: loop_def wait_processing_set statements_def busy_state_def deref_def)

end
